theory Spec2Isabelle
  imports Main
begin

section \<open>Selective extraction of files from a layered image (pkg/image/extract.go)\<close>

text \<open>
  The development embeds the function \<open>Extract\<close> of \<open>pkg/image/extract.go\<close>: the walk
  over the layers of an image from the top layer down, the filter and match applied to
  every tar entry, the writes to the output archive, and the list of found files that is
  returned. The registry side (\<open>Pull\<close>) is not part of it.
\<close>

subsection \<open>Library functions used by Extract\<close>

text \<open>
  \<open>strings.TrimPrefix(s, prefix)\<close> of the Go library: \<open>s\<close> without the leading
  \<open>prefix\<close>, and \<open>s\<close> itself when it does not start with \<open>prefix\<close>.
\<close>

definition TrimPrefix :: "string \<Rightarrow> string \<Rightarrow> string" where
  "TrimPrefix s prefix =
     (if take (length prefix) s = prefix then drop (length prefix) s else s)"

text \<open>
  \<open>filepath.Clean\<close> of the Go library on a system whose separator is \<open>/\<close>. The library
  documents it by four rules: runs of separators become one separator, every \<open>.\<close>
  element is dropped, an inner \<open>..\<close> is dropped with the element before it, and a
  \<open>..\<close> that begins a rooted path is dropped. The result ends in a separator only when it
  is the root, and the empty result is written \<open>.\<close>. The model splits the path into its
  elements, runs the rules over them with the kept elements on a stack, and joins what is
  left.
\<close>

fun split_sep :: "string \<Rightarrow> string list" where
  "split_sep [] = [[]]"
| "split_sep (c # cs) =
     (if c = CHR ''/'' then [] # split_sep cs
      else (case split_sep cs of
              [] \<Rightarrow> [[c]]
            | x # xs \<Rightarrow> (c # x) # xs))"

fun clean_elems :: "bool \<Rightarrow> string list \<Rightarrow> string list \<Rightarrow> string list" where
  "clean_elems rooted out [] = rev out"
| "clean_elems rooted out (c # cs) =
     (if c = [] \<or> c = ''.'' then clean_elems rooted out cs
      else if c = ''..'' then
        (case out of
           [] \<Rightarrow> if rooted then clean_elems rooted [] cs
                 else clean_elems rooted [''..''] cs
         | p # ps \<Rightarrow> if p = ''..'' then clean_elems rooted (''..'' # out) cs
                     else clean_elems rooted ps cs)
      else clean_elems rooted (c # out) cs)"

fun join_sep :: "string list \<Rightarrow> string" where
  "join_sep [] = []"
| "join_sep [x] = x"
| "join_sep (x # y # ys) = x @ ''/'' @ join_sep (y # ys)"

definition Clean :: "string \<Rightarrow> string" where
  "Clean path =
     (if path = [] then ''.''
      else if hd path = CHR ''/'' then ''/'' @ join_sep (clean_elems True [] (split_sep path))
      else if clean_elems False [] (split_sep path) = [] then ''.''
      else join_sep (clean_elems False [] (split_sep path)))"

subsection \<open>Data\<close>

text \<open>
  The fields of \<open>tar.Header\<close> that \<open>Extract\<close> reads or changes. \<open>Typeflag\<close> is a byte and
  \<open>tar.TypeDir\<close> is the byte \<open>5\<close>; \<open>Size\<close> is an \<open>int64\<close> that is only compared with zero.
\<close>

record Header =
  Name :: string
  Typeflag :: char
  Size :: int

abbreviation TypeReg :: char where "TypeReg \<equiv> CHR ''0''"
abbreviation TypeDir :: char where "TypeDir \<equiv> CHR ''5''"

text \<open>
  Modelled from the spec: the declaration of \<open>v1alpha1.FileLocation\<close> and of
  \<open>v1alpha1.PluginPlatform\<close> (package \<open>api/v1alpha1\<close>). A file location is a source path
  \<open>From\<close> and a destination label \<open>To\<close>; of a platform, \<open>Extract\<close> reads only the ordered
  list \<open>Files\<close>.
\<close>

record FileLocation =
  From :: string
  To :: string

record PluginPlatform =
  Files :: "FileLocation list"

text \<open>
  What the image hands to \<open>Extract\<close>. A call of \<open>tarReader.Next()\<close> returns a header
  (here together with the bytes the reader would then serve as the entry's content), an
  error, or \<open>io.EOF\<close>: a layer's stream is the list of the results of the successive
  calls, and the end of the list is \<open>io.EOF\<close>. \<open>layer.Uncompressed()\<close> returns such a
  stream or an error, and \<open>img.Layers()\<close> returns the layers, index 0 the bottom one, or
  an error.
\<close>

datatype next_result = Entry Header string | ReadErr

datatype layer = UncompressedErr | Stream "next_result list"

datatype image = LayersErr | Layers "layer list"

text \<open>
  The errors \<open>Extract\<close> returns, one for each of its four \<open>return nil, ...\<close> statements.
\<close>

datatype error =
    ErrRetrievingLayers
  | ErrCreate
  | ErrReadingLayer
  | ErrReadingTar

text \<open>
  The output side. The archive under construction is the list of the entries the tar
  writer has received: a header and the content bytes that followed it. Whether
  \<open>tw.WriteHeader\<close> and \<open>io.Copy\<close> succeed is decided outside \<open>Extract\<close>, so it is a
  parameter: the outcome of the \<open>n\<close>-th pass through the two calls. When the copy fails,
  \<open>CopyErr r w\<close> says that \<open>r\<close> bytes had been read from the entry and that the first
  \<open>w\<close> of them (at most \<open>r\<close>) had reached the archive.
\<close>

datatype write_outcome = WriteOk | HeaderErr | CopyErr nat nat

type_synonym archive = "(Header \<times> string) list"

text \<open>
  The variables of \<open>Extract\<close> that change during the walk: the set \<open>processedTargets\<close>,
  the counter \<open>foundLen\<close>, the tar writer \<open>tw\<close>; and two logs of effects: the number of
  write passes made so far, and the indices of the layers on which \<open>Uncompressed()\<close> was
  called, in the order of the calls.
\<close>

record walk_state =
  processedTargets :: "string set"
  foundLen :: nat
  tw :: archive
  attempts :: nat
  opened :: "nat list"

definition init_state :: walk_state where
  "init_state = \<lparr>processedTargets = {}, foundLen = 0, tw = [], attempts = 0, opened = []\<rparr>"

subsection \<open>The walk\<close>

text \<open>
  The loop over the targets for one entry that passed the filters (lines 137 to 151).
  \<open>h\<close> is the header with its cleaned name and \<open>d\<close> the content the reader has not served
  yet. A target matches when the header's name is the target's \<open>From\<close> without one
  leading separator; the target's \<open>From\<close> itself is then put into \<open>processedTargets\<close>
  and the header and content are written. Both \<open>continue\<close> statements are inside the
  loop over the targets, so after a failed write the loop goes on with the next target;
  after a successful one it counts the file and stops.
\<close>

fun scan_targets ::
  "(nat \<Rightarrow> write_outcome) \<Rightarrow> FileLocation list \<Rightarrow> Header \<Rightarrow> string \<Rightarrow> walk_state \<Rightarrow> walk_state"
where
  "scan_targets wr [] h d st = st"
| "scan_targets wr (target # rest) h d st =
     (if Name h = TrimPrefix (From target) ''/'' then
        (case wr (attempts st) of
           HeaderErr \<Rightarrow>
             scan_targets wr rest h d
               (st\<lparr>processedTargets := insert (From target) (processedTargets st),
                   attempts := Suc (attempts st)\<rparr>)
         | CopyErr r w \<Rightarrow>
             scan_targets wr rest h (drop r d)
               (st\<lparr>processedTargets := insert (From target) (processedTargets st),
                   tw := tw st @ [(h, take (min w r) d)],
                   attempts := Suc (attempts st)\<rparr>)
         | WriteOk \<Rightarrow>
             st\<lparr>processedTargets := insert (From target) (processedTargets st),
                tw := tw st @ [(h, d)],
                attempts := Suc (attempts st),
                foundLen := Suc (foundLen st)\<rparr>)
      else scan_targets wr rest h d st)"

text \<open>
  The loop over the entries of one layer (lines 102 to 155). It ends without error at
  \<open>io.EOF\<close> or when \<open>foundLen\<close> has reached the number of targets after a scan, and with
  an error when \<open>Next()\<close> fails.
\<close>

fun walk_entries ::
  "(nat \<Rightarrow> write_outcome) \<Rightarrow> FileLocation list \<Rightarrow> next_result list \<Rightarrow> walk_state
     \<Rightarrow> error option \<times> walk_state"
where
  "walk_entries wr files [] st = (None, st)"
| "walk_entries wr files (ReadErr # rest) st = (Some ErrReadingTar, st)"
| "walk_entries wr files (Entry h d # rest) st =
     (if Typeflag h = TypeDir then walk_entries wr files rest st
      else if Size h = 0 then walk_entries wr files rest st
      else if length (Clean (Name h)) = 0 then walk_entries wr files rest st
      else if Clean (Name h) \<in> processedTargets st then walk_entries wr files rest st
      else if foundLen (scan_targets wr files (h\<lparr>Name := Clean (Name h)\<rparr>) d st) = length files
        then (None, scan_targets wr files (h\<lparr>Name := Clean (Name h)\<rparr>) d st)
      else walk_entries wr files rest
             (scan_targets wr files (h\<lparr>Name := Clean (Name h)\<rparr>) d st))"

text \<open>
  The loop over the layers (lines 91 to 157), from index \<open>i - 1\<close> down to 0. \<open>Extract\<close>
  starts it at \<open>i = len(layers)\<close>, so \<open>layers[i - 1]\<close> is always in range.
\<close>

fun walk_layers ::
  "(nat \<Rightarrow> write_outcome) \<Rightarrow> FileLocation list \<Rightarrow> layer list \<Rightarrow> nat \<Rightarrow> walk_state
     \<Rightarrow> error option \<times> walk_state"
where
  "walk_layers wr files layers 0 st = (None, st)"
| "walk_layers wr files layers (Suc i) st =
     (if foundLen st = length files then (None, st)
      else (case layers ! i of
              UncompressedErr \<Rightarrow> (Some ErrReadingLayer, st\<lparr>opened := opened st @ [i]\<rparr>)
            | Stream s \<Rightarrow>
                (case walk_entries wr files s (st\<lparr>opened := opened st @ [i]\<rparr>) of
                   (Some e, st') \<Rightarrow> (Some e, st')
                 | (None, st') \<Rightarrow> walk_layers wr files layers i st')))"

text \<open>
  The last loop (lines 159 to 164): the targets whose \<open>From\<close> is in \<open>processedTargets\<close>,
  appended one by one.
\<close>

fun fileLocation_loop ::
  "FileLocation list \<Rightarrow> string set \<Rightarrow> FileLocation list \<Rightarrow> FileLocation list"
where
  "fileLocation_loop [] processed fileLocation = fileLocation"
| "fileLocation_loop (f # fs) processed fileLocation =
     (if From f \<in> processed then fileLocation_loop fs processed (fileLocation @ [f])
      else fileLocation_loop fs processed fileLocation)"

text \<open>
  \<open>Extract\<close>. \<open>os_create\<close> says for which names \<open>os.Create\<close> succeeds. The result is what
  the function returns, together with the final state of the walk when the destination
  file was created: its component \<open>tw\<close> is what the destination holds once the deferred
  \<open>tw.Close()\<close>, \<open>gw.Close()\<close> and \<open>file.Close()\<close> have run, which they do on every return
  after the creation.
\<close>

definition Extract ::
  "(string \<Rightarrow> bool) \<Rightarrow> (nat \<Rightarrow> write_outcome) \<Rightarrow> image \<Rightarrow> PluginPlatform \<Rightarrow> string
     \<Rightarrow> (error + FileLocation list) \<times> walk_state option"
where
  "Extract os_create wr img platform destinationName =
     (case img of
        LayersErr \<Rightarrow> (Inl ErrRetrievingLayers, None)
      | Layers layers \<Rightarrow>
          if \<not> os_create destinationName then (Inl ErrCreate, None)
          else (case walk_layers wr (Files platform) layers (length layers) init_state of
                  (Some e, st) \<Rightarrow> (Inl e, Some st)
                | (None, st) \<Rightarrow>
                    (Inr (fileLocation_loop (Files platform) (processedTargets st) []),
                     Some st)))"


section \<open>Properties\<close>

subsection \<open>Auxiliary facts\<close>

lemma fileLocation_loop_filter:
  "fileLocation_loop files processed acc = acc @ filter (\<lambda>f. From f \<in> processed) files"
  by (induction files arbitrary: acc) simp_all

lemma TrimPrefix_sep_Cons: "TrimPrefix (CHR ''/'' # s) ''/'' = s"
  by (simp add: TrimPrefix_def)

lemma TrimPrefix_sep_other: "s = [] \<or> hd s \<noteq> CHR ''/'' \<Longrightarrow> TrimPrefix s ''/'' = s"
  by (cases s) (auto simp: TrimPrefix_def)

lemma clean_elems_elems_nonempty:
  "[] \<notin> set out \<Longrightarrow> [] \<notin> set (clean_elems rooted out cs)"
proof (induction cs arbitrary: out)
  case Nil
  then show ?case by simp
next
  case (Cons c cs)
  show ?case
  proof (cases "c = [] \<or> c = ''.''")
    case True
    with Cons show ?thesis by simp
  next
    case False
    show ?thesis
    proof (cases "c = ''..''")
      case False
      with \<open>\<not> (c = [] \<or> c = ''.'')\<close> Cons.prems Cons.IH [of "c # out"]
      show ?thesis by auto
    next
      case True
      show ?thesis
      proof (cases out)
        case Nil
        with True Cons.IH [of "[]"] Cons.IH [of "[''..'']"] show ?thesis by auto
      next
        case (Cons p ps)
        with True Cons.prems Cons.IH [of "''..'' # out"] Cons.IH [of ps]
        show ?thesis by auto
      qed
    qed
  qed
qed

lemma join_sep_nonempty: "xs \<noteq> [] \<Longrightarrow> [] \<notin> set xs \<Longrightarrow> join_sep xs \<noteq> []"
  by (induction xs rule: join_sep.induct) auto

lemma Clean_nonempty: "Clean path \<noteq> []"
proof -
  have "[] \<notin> set (clean_elems False [] (split_sep path))"
    by (rule clean_elems_elems_nonempty) simp
  then show ?thesis
    by (auto simp: Clean_def dest: join_sep_nonempty)
qed

lemma scan_targets_opened: "opened (scan_targets wr ts h d st) = opened st"
  by (induction ts arbitrary: st d) (auto split: write_outcome.splits)

lemma scan_targets_processed_mono:
  "processedTargets st \<subseteq> processedTargets (scan_targets wr ts h d st)"
proof (induction ts arbitrary: st d)
  case Nil
  show ?case by simp
next
  case (Cons t ts)
  show ?case
  proof (cases "Name h = TrimPrefix (From t) ''/''")
    case False
    with Cons show ?thesis by simp
  next
    case True
    show ?thesis
    proof (cases "wr (attempts st)")
      case WriteOk
      with True show ?thesis by auto
    next
      case HeaderErr
      have "processedTargets st \<subseteq> processedTargets
              (st\<lparr>processedTargets := insert (From t) (processedTargets st),
                  attempts := Suc (attempts st)\<rparr>)"
        by auto
      also have "\<dots> \<subseteq> processedTargets (scan_targets wr ts h d
              (st\<lparr>processedTargets := insert (From t) (processedTargets st),
                  attempts := Suc (attempts st)\<rparr>))"
        by (rule Cons.IH)
      finally show ?thesis using True HeaderErr by simp
    next
      case (CopyErr r w)
      have "processedTargets st \<subseteq> processedTargets
              (st\<lparr>processedTargets := insert (From t) (processedTargets st),
                  tw := tw st @ [(h, take (min w r) d)],
                  attempts := Suc (attempts st)\<rparr>)"
        by auto
      also have "\<dots> \<subseteq> processedTargets (scan_targets wr ts h (drop r d)
              (st\<lparr>processedTargets := insert (From t) (processedTargets st),
                  tw := tw st @ [(h, take (min w r) d)],
                  attempts := Suc (attempts st)\<rparr>))"
        by (rule Cons.IH)
      finally show ?thesis using True CopyErr by simp
    qed
  qed
qed

lemma scan_targets_tw:
  "\<exists>ws. tw (scan_targets wr ts h d st) = tw st @ ws \<and> (\<forall>w\<in>set ws. fst w = h)"
proof (induction ts arbitrary: st d)
  case Nil
  show ?case by simp
next
  case (Cons t ts)
  show ?case
  proof (cases "Name h = TrimPrefix (From t) ''/''")
    case False
    with Cons show ?thesis by simp
  next
    case True
    show ?thesis
    proof (cases "wr (attempts st)")
      case WriteOk
      with True show ?thesis by simp
    next
      case HeaderErr
      with True Cons.IH [of d "st\<lparr>processedTargets := insert (From t) (processedTargets st),
                  attempts := Suc (attempts st)\<rparr>"]
      show ?thesis by simp
    next
      case (CopyErr r w)
      from Cons.IH [of "drop r d" "st\<lparr>processedTargets := insert (From t) (processedTargets st),
                  tw := tw st @ [(h, take (min w r) d)],
                  attempts := Suc (attempts st)\<rparr>"]
      obtain ws where "tw (scan_targets wr ts h (drop r d)
              (st\<lparr>processedTargets := insert (From t) (processedTargets st),
                  tw := tw st @ [(h, take (min w r) d)],
                  attempts := Suc (attempts st)\<rparr>)) = tw st @ (h, take (min w r) d) # ws"
         and "\<forall>w\<in>set ws. fst w = h"
        by auto
      with True CopyErr show ?thesis by simp
    qed
  qed
qed

lemma walk_entries_skip:
  "Typeflag h = TypeDir \<or> Size h = 0 \<or> Clean (Name h) \<in> processedTargets st \<Longrightarrow>
   walk_entries wr files (Entry h d # rest) st = walk_entries wr files rest st"
  by auto

lemma walk_entries_scan:
  "\<not> (Typeflag h = TypeDir \<or> Size h = 0 \<or> Clean (Name h) \<in> processedTargets st) \<Longrightarrow>
   walk_entries wr files (Entry h d # rest) st =
     (if foundLen (scan_targets wr files (h\<lparr>Name := Clean (Name h)\<rparr>) d st) = length files
      then (None, scan_targets wr files (h\<lparr>Name := Clean (Name h)\<rparr>) d st)
      else walk_entries wr files rest (scan_targets wr files (h\<lparr>Name := Clean (Name h)\<rparr>) d st))"
  by (simp add: Clean_nonempty)

lemma walk_entries_invariant:
  assumes step: "\<And>h d st. \<not> (Typeflag h = TypeDir \<or> Size h = 0) \<Longrightarrow> P st \<Longrightarrow>
                    P (scan_targets wr files (h\<lparr>Name := Clean (Name h)\<rparr>) d st)"
  shows "walk_entries wr files s st = (r, st') \<Longrightarrow> P st \<Longrightarrow> P st'"
proof (induction s arbitrary: st)
  case Nil
  then show ?case by simp
next
  case (Cons x s)
  show ?case
  proof (cases x)
    case ReadErr
    with Cons.prems show ?thesis by simp
  next
    case (Entry h d)
    show ?thesis
    proof (cases "Typeflag h = TypeDir \<or> Size h = 0 \<or> Clean (Name h) \<in> processedTargets st")
      case True
      then have "walk_entries wr files (x # s) st = walk_entries wr files s st"
        unfolding Entry by (rule walk_entries_skip)
      with Cons.prems(1) have "walk_entries wr files s st = (r, st')" by simp
      then show ?thesis using Cons.prems(2) by (rule Cons.IH)
    next
      case False
      let ?scan = "scan_targets wr files (h\<lparr>Name := Clean (Name h)\<rparr>) d st"
      from False Cons.prems(2) have P: "P ?scan" by (intro step) auto
      show ?thesis
      proof (cases "foundLen ?scan = length files")
        case True
        with walk_entries_scan [OF False, of wr files d s] Cons.prems(1) Entry
        have "st' = ?scan" by simp
        with P show ?thesis by simp
      next
        case nf: False
        with walk_entries_scan [OF False, of wr files d s] Cons.prems(1) Entry
        have "walk_entries wr files s ?scan = (r, st')" by simp
        then show ?thesis using P by (rule Cons.IH)
      qed
    qed
  qed
qed

lemma walk_entries_opened:
  "walk_entries wr files s st = (r, st') \<Longrightarrow> opened st' = opened st"
  using walk_entries_invariant [where P = "\<lambda>x. opened x = opened st" and st = st]
  by (simp add: scan_targets_opened)

lemma walk_entries_processed_mono:
  "walk_entries wr files s st = (r, st') \<Longrightarrow> processedTargets st \<subseteq> processedTargets st'"
  using walk_entries_invariant [where P = "\<lambda>x. processedTargets st \<subseteq> processedTargets x" and st = st]
    scan_targets_processed_mono
  by (meson order_refl order_trans)

lemma walk_layers_invariant:
  assumes log: "\<And>st i. P st \<Longrightarrow> P (st\<lparr>opened := opened st @ [i]\<rparr>)"
    and step: "\<And>h d st. \<not> (Typeflag h = TypeDir \<or> Size h = 0) \<Longrightarrow> P st \<Longrightarrow>
                    P (scan_targets wr files (h\<lparr>Name := Clean (Name h)\<rparr>) d st)"
  shows "walk_layers wr files layers n st = (r, st') \<Longrightarrow> P st \<Longrightarrow> P st'"
proof (induction n arbitrary: st)
  case 0
  then show ?case by simp
next
  case (Suc n)
  show ?case
  proof (cases "foundLen st = length files")
    case True
    with Suc.prems show ?thesis by simp
  next
    case False
    show ?thesis
    proof (cases "layers ! n")
      case UncompressedErr
      with False Suc.prems(1) have "st' = st\<lparr>opened := opened st @ [n]\<rparr>" by simp
      with Suc.prems(2) show ?thesis by (simp add: log)
    next
      case (Stream s)
      obtain r1 st1 where w: "walk_entries wr files s (st\<lparr>opened := opened st @ [n]\<rparr>) = (r1, st1)"
        by (cases "walk_entries wr files s (st\<lparr>opened := opened st @ [n]\<rparr>)")
      from Suc.prems(2) have "P (st\<lparr>opened := opened st @ [n]\<rparr>)" by (rule log)
      with w step have P1: "P st1"
        using walk_entries_invariant [where P = P and wr = wr and files = files] by blast
      show ?thesis
      proof (cases r1)
        case None
        with False Stream w Suc.prems(1) have "walk_layers wr files layers n st1 = (r, st')"
          by simp
        then show ?thesis using P1 by (rule Suc.IH)
      next
        case (Some e)
        with False Stream w Suc.prems(1) have "st' = st1" by simp
        with P1 show ?thesis by simp
      qed
    qed
  qed
qed

lemma walk_layers_processed_mono:
  "walk_layers wr files layers n st = (r, st') \<Longrightarrow> processedTargets st \<subseteq> processedTargets st'"
  using walk_layers_invariant [where P = "\<lambda>x. processedTargets st \<subseteq> processedTargets x" and st = st]
    scan_targets_processed_mono
  by (simp, meson order_refl order_trans)

lemma walk_layers_tw_inv:
  assumes "walk_layers wr files layers n st = (r, st')"
    and "\<forall>w\<in>set (tw st). Typeflag (fst w) \<noteq> TypeDir \<and> Size (fst w) \<noteq> 0"
  shows "\<forall>w\<in>set (tw st'). Typeflag (fst w) \<noteq> TypeDir \<and> Size (fst w) \<noteq> 0"
proof (rule walk_layers_invariant
    [where P = "\<lambda>x. \<forall>w\<in>set (tw x). Typeflag (fst w) \<noteq> TypeDir \<and> Size (fst w) \<noteq> 0",
     OF _ _ assms])
  fix h :: Header and d and x :: walk_state
  assume ok: "\<not> (Typeflag h = TypeDir \<or> Size h = 0)"
    and inv: "\<forall>w\<in>set (tw x). Typeflag (fst w) \<noteq> TypeDir \<and> Size (fst w) \<noteq> 0"
  obtain ws where "tw (scan_targets wr files (h\<lparr>Name := Clean (Name h)\<rparr>) d x) = tw x @ ws"
      "\<forall>w\<in>set ws. fst w = h\<lparr>Name := Clean (Name h)\<rparr>"
    using scan_targets_tw [of wr files "h\<lparr>Name := Clean (Name h)\<rparr>" d x] by blast
  with ok inv
  show "\<forall>w\<in>set (tw (scan_targets wr files (h\<lparr>Name := Clean (Name h)\<rparr>) d x)).
          Typeflag (fst w) \<noteq> TypeDir \<and> Size (fst w) \<noteq> 0"
    by auto
qed simp


lemma walk_layers_all_found:
  "foundLen st = length files \<Longrightarrow> walk_layers wr files layers i st = (None, st)"
  by (cases i) simp_all

lemma walk_layers_found_in_layer:
  assumes "foundLen st \<noteq> length files" and "layers ! i = Stream s"
    and "walk_entries wr files s (st\<lparr>opened := opened st @ [i]\<rparr>) = (None, st')"
    and "foundLen st' = length files"
  shows "walk_layers wr files layers (Suc i) st = (None, st')"
    and "opened st' = opened st @ [i]"
proof -
  from assms(1-3) have "walk_layers wr files layers (Suc i) st = walk_layers wr files layers i st'"
    by simp
  with assms(4) show "walk_layers wr files layers (Suc i) st = (None, st')"
    by (simp add: walk_layers_all_found)
  from assms(3) show "opened st' = opened st @ [i]"
    by (simp add: walk_entries_opened)
qed

lemma Extract_found_at_top:
  assumes h: "Typeflag h \<noteq> TypeDir" "Size h \<noteq> 0"
    and match: "Clean (Name h) = TrimPrefix (From t) ''/''"
    and ok: "wr 0 = WriteOk" and cr: "os_create destinationName"
  shows "Extract os_create wr (Layers (lowers @ [Stream (Entry h d # rest)]))
           \<lparr>Files = [t]\<rparr> destinationName
         = (Inr [t],
            Some \<lparr>processedTargets = {From t}, foundLen = 1,
                  tw = [(h\<lparr>Name := Clean (Name h)\<rparr>, d)], attempts = 1,
                  opened = [length lowers]\<rparr>)"
proof -
  let ?st0 = "init_state\<lparr>opened := opened init_state @ [length lowers]\<rparr>"
  let ?st1 = "\<lparr>processedTargets = {From t}, foundLen = 1,
                tw = [(h\<lparr>Name := Clean (Name h)\<rparr>, d)], attempts = 1,
                opened = [length lowers]\<rparr>"
  have scan: "scan_targets wr [t] (h\<lparr>Name := Clean (Name h)\<rparr>) d ?st0 = ?st1"
    using match ok by (simp add: init_state_def)
  have "\<not> (Typeflag h = TypeDir \<or> Size h = 0 \<or> Clean (Name h) \<in> processedTargets ?st0)"
    using h by (simp add: init_state_def)
  from walk_entries_scan [OF this, of wr "[t]" d rest]
  have ent: "walk_entries wr [t] (Entry h d # rest) ?st0 = (None, ?st1)"
    unfolding scan by (simp del: walk_entries.simps scan_targets.simps)
  have "walk_layers wr [t] (lowers @ [Stream (Entry h d # rest)]) (Suc (length lowers)) init_state
          = (None, ?st1)"
    by (rule walk_layers_found_in_layer(1) [OF _ _ ent]) (simp_all add: init_state_def)
  with cr show ?thesis
    by (simp add: Extract_def)
qed

lemma walk_entries_error:
  "walk_entries wr files s st = (Some e, st') \<Longrightarrow> e = ErrReadingTar \<and> ReadErr \<in> set s"
proof (induction s arbitrary: st)
  case Nil
  then show ?case by simp
next
  case (Cons x s)
  show ?case
  proof (cases x)
    case ReadErr
    with Cons.prems show ?thesis by simp
  next
    case (Entry h d)
    show ?thesis
    proof (cases "Typeflag h = TypeDir \<or> Size h = 0 \<or> Clean (Name h) \<in> processedTargets st")
      case True
      then have "walk_entries wr files (x # s) st = walk_entries wr files s st"
        unfolding Entry by (rule walk_entries_skip)
      with Cons.prems have "walk_entries wr files s st = (Some e, st')" by simp
      then have "e = ErrReadingTar \<and> ReadErr \<in> set s" by (rule Cons.IH)
      then show ?thesis by simp
    next
      case False
      let ?scan = "scan_targets wr files (h\<lparr>Name := Clean (Name h)\<rparr>) d st"
      from walk_entries_scan [OF False, of wr files d s] Cons.prems Entry
      have "walk_entries wr files s ?scan = (Some e, st')"
        by (simp del: walk_entries.simps split: if_splits)
      then have "e = ErrReadingTar \<and> ReadErr \<in> set s" by (rule Cons.IH)
      then show ?thesis by simp
    qed
  qed
qed

lemma walk_entries_no_error:
  "walk_entries wr files s st = (None, st') \<Longrightarrow> ReadErr \<in> set s \<Longrightarrow>
   foundLen st' = length files"
proof (induction s arbitrary: st)
  case Nil
  then show ?case by simp
next
  case (Cons x s)
  show ?case
  proof (cases x)
    case ReadErr
    with Cons.prems show ?thesis by simp
  next
    case (Entry h d)
    with Cons.prems(2) have in_s: "ReadErr \<in> set s" by simp
    show ?thesis
    proof (cases "Typeflag h = TypeDir \<or> Size h = 0 \<or> Clean (Name h) \<in> processedTargets st")
      case True
      then have "walk_entries wr files (x # s) st = walk_entries wr files s st"
        unfolding Entry by (rule walk_entries_skip)
      with Cons.prems(1) have "walk_entries wr files s st = (None, st')" by simp
      then show ?thesis using in_s by (rule Cons.IH)
    next
      case False
      let ?scan = "scan_targets wr files (h\<lparr>Name := Clean (Name h)\<rparr>) d st"
      show ?thesis
      proof (cases "foundLen ?scan = length files")
        case True
        with walk_entries_scan [OF False, of wr files d s] Cons.prems(1) Entry
        have "st' = ?scan" by simp
        with True show ?thesis by simp
      next
        case nf: False
        with walk_entries_scan [OF False, of wr files d s] Cons.prems(1) Entry
        have "walk_entries wr files s ?scan = (None, st')" by simp
        then show ?thesis using in_s by (rule Cons.IH)
      qed
    qed
  qed
qed

lemma walk_layers_error:
  "walk_layers wr files layers n st = (Some e, st') \<Longrightarrow>
   opened st' \<noteq> [] \<and> last (opened st') < n \<and>
   (e = ErrReadingLayer \<and> layers ! last (opened st') = UncompressedErr
    \<or> e = ErrReadingTar \<and> (\<exists>s. layers ! last (opened st') = Stream s \<and> ReadErr \<in> set s))"
proof (induction n arbitrary: st)
  case 0
  then show ?case by simp
next
  case (Suc n)
  show ?case
  proof (cases "foundLen st = length files")
    case True
    with Suc.prems show ?thesis by simp
  next
    case False
    show ?thesis
    proof (cases "layers ! n")
      case UncompressedErr
      with False Suc.prems show ?thesis by auto
    next
      case (Stream s)
      obtain r1 st1 where w: "walk_entries wr files s (st\<lparr>opened := opened st @ [n]\<rparr>) = (r1, st1)"
        by (cases "walk_entries wr files s (st\<lparr>opened := opened st @ [n]\<rparr>)")
      show ?thesis
      proof (cases r1)
        case None
        with False Stream w Suc.prems have "walk_layers wr files layers n st1 = (Some e, st')"
          by simp
        from Suc.IH [OF this] show ?thesis by auto
      next
        case (Some e1)
        with False Stream w Suc.prems have eq: "e = e1" "st' = st1" by simp_all
        from w Some have "e1 = ErrReadingTar \<and> ReadErr \<in> set s"
          by (simp add: walk_entries_error)
        moreover from w have "opened st1 = opened st @ [n]"
          by (simp add: walk_entries_opened)
        ultimately show ?thesis using eq Stream by simp
      qed
    qed
  qed
qed

lemma walk_layers_no_error:
  "walk_layers wr files layers n st = (None, st') \<Longrightarrow>
   \<forall>i\<in>set (opened st). \<exists>s. layers ! i = Stream s
        \<and> (ReadErr \<notin> set s \<or> foundLen st = length files) \<Longrightarrow>
   \<forall>i\<in>set (opened st'). \<exists>s. layers ! i = Stream s
        \<and> (ReadErr \<notin> set s \<or> foundLen st' = length files)"
proof (induction n arbitrary: st)
  case 0
  then show ?case by simp
next
  case (Suc n)
  show ?case
  proof (cases "foundLen st = length files")
    case True
    with Suc.prems show ?thesis by simp
  next
    case False
    show ?thesis
    proof (cases "layers ! n")
      case UncompressedErr
      with False Suc.prems(1) show ?thesis by simp
    next
      case (Stream s)
      obtain r1 st1 where w: "walk_entries wr files s (st\<lparr>opened := opened st @ [n]\<rparr>) = (r1, st1)"
        by (cases "walk_entries wr files s (st\<lparr>opened := opened st @ [n]\<rparr>)")
      with False Stream Suc.prems(1) have r1: "r1 = None" and
        rest: "walk_layers wr files layers n st1 = (None, st')"
        by (cases r1; simp)+
      from w have op: "opened st1 = opened st @ [n]"
        by (simp add: walk_entries_opened)
      from w r1 have here: "ReadErr \<in> set s \<Longrightarrow> foundLen st1 = length files"
        by (simp add: walk_entries_no_error)
      from Suc.prems(2) False
      have old: "\<forall>i\<in>set (opened st). \<exists>s. layers ! i = Stream s \<and> ReadErr \<notin> set s"
        by simp
      have "\<forall>i\<in>set (opened st1). \<exists>s. layers ! i = Stream s
              \<and> (ReadErr \<notin> set s \<or> foundLen st1 = length files)"
        unfolding op using old Stream here by auto
      with rest show ?thesis by (rule Suc.IH)
    qed
  qed
qed

lemma Extract_Inr:
  "Extract os_create wr (Layers ls) platform destinationName = (Inr locs, Some fin) \<Longrightarrow>
   os_create destinationName
   \<and> walk_layers wr (Files platform) ls (length ls) init_state = (None, fin)
   \<and> locs = filter (\<lambda>f. From f \<in> processedTargets fin) (Files platform)"
  by (cases "walk_layers wr (Files platform) ls (length ls) init_state")
     (auto simp: Extract_def fileLocation_loop_filter split: if_splits option.splits)

lemma scan_targets_head_match:
  "Name h = TrimPrefix (From t) ''/'' \<Longrightarrow>
   From t \<in> processedTargets (scan_targets wr (t # ts) h d st)"
proof (cases "wr (attempts st)")
  case WriteOk
  assume "Name h = TrimPrefix (From t) ''/''"
  with WriteOk show ?thesis by simp
next
  case HeaderErr
  assume m: "Name h = TrimPrefix (From t) ''/''"
  let ?st1 = "st\<lparr>processedTargets := insert (From t) (processedTargets st),
                  attempts := Suc (attempts st)\<rparr>"
  have "From t \<in> processedTargets ?st1" by simp
  also have "processedTargets ?st1 \<subseteq> processedTargets (scan_targets wr ts h d ?st1)"
    by (rule scan_targets_processed_mono)
  finally show ?thesis using m HeaderErr by simp
next
  case (CopyErr r w)
  assume m: "Name h = TrimPrefix (From t) ''/''"
  let ?st1 = "st\<lparr>processedTargets := insert (From t) (processedTargets st),
                  tw := tw st @ [(h, take (min w r) d)],
                  attempts := Suc (attempts st)\<rparr>"
  have "From t \<in> processedTargets ?st1" by simp
  also have "processedTargets ?st1 \<subseteq> processedTargets (scan_targets wr ts h (drop r d) ?st1)"
    by (rule scan_targets_processed_mono)
  finally show ?thesis using m CopyErr by simp
qed

lemma scan_targets_failed_head:
  assumes "Name h = TrimPrefix (From t) ''/''" and "wr (attempts st) \<noteq> WriteOk"
  shows "\<exists>d1 st1. scan_targets wr (t # ts) h d st = scan_targets wr ts h d1 st1
           \<and> processedTargets st1 = insert (From t) (processedTargets st)
           \<and> foundLen st1 = foundLen st
           \<and> attempts st1 = Suc (attempts st)
           \<and> (tw st1 = tw st \<or> (\<exists>n. tw st1 = tw st @ [(h, take n d)]))"
proof (cases "wr (attempts st)")
  case WriteOk
  with assms show ?thesis by simp
next
  case HeaderErr
  let ?st1 = "st\<lparr>processedTargets := insert (From t) (processedTargets st),
                  attempts := Suc (attempts st)\<rparr>"
  from assms HeaderErr have "scan_targets wr (t # ts) h d st = scan_targets wr ts h d ?st1"
    by simp
  moreover have "processedTargets ?st1 = insert (From t) (processedTargets st)
      \<and> foundLen ?st1 = foundLen st \<and> attempts ?st1 = Suc (attempts st) \<and> tw ?st1 = tw st"
    by simp
  ultimately show ?thesis by blast
next
  case (CopyErr r w)
  let ?st1 = "st\<lparr>processedTargets := insert (From t) (processedTargets st),
                  tw := tw st @ [(h, take (min w r) d)],
                  attempts := Suc (attempts st)\<rparr>"
  from assms CopyErr
  have "scan_targets wr (t # ts) h d st = scan_targets wr ts h (drop r d) ?st1"
    by simp
  moreover have "processedTargets ?st1 = insert (From t) (processedTargets st)
      \<and> foundLen ?st1 = foundLen st \<and> attempts ?st1 = Suc (attempts st)
      \<and> tw ?st1 = tw st @ [(h, take (min w r) d)]"
    by simp
  ultimately show ?thesis by blast
qed



lemma scan_targets_attempts_mono: "attempts st \<le> attempts (scan_targets wr ts h d st)"
proof (induction ts arbitrary: st d)
  case Nil
  show ?case by simp
next
  case (Cons t ts)
  show ?case
  proof (cases "Name h = TrimPrefix (From t) ''/''")
    case False
    with Cons show ?thesis by simp
  next
    case True
    show ?thesis
    proof (cases "wr (attempts st)")
      case WriteOk
      with True show ?thesis by simp
    next
      case HeaderErr
      with True Cons.IH [of "st\<lparr>processedTargets := insert (From t) (processedTargets st),
                  attempts := Suc (attempts st)\<rparr>" d]
      show ?thesis by simp
    next
      case (CopyErr r w)
      with True Cons.IH [of "st\<lparr>processedTargets := insert (From t) (processedTargets st),
                  tw := tw st @ [(h, take (min w r) d)],
                  attempts := Suc (attempts st)\<rparr>" "drop r d"]
      show ?thesis by simp
    qed
  qed
qed

lemma scan_targets_attempted_iff:
  "(attempts st < attempts (scan_targets wr ts h d st))
     = (\<exists>t\<in>set ts. Name h = TrimPrefix (From t) ''/'')"
proof (induction ts)
  case Nil
  show ?case by simp
next
  case (Cons t ts)
  show ?case
  proof (cases "Name h = TrimPrefix (From t) ''/''")
    case False
    with Cons show ?thesis by simp
  next
    case True
    show ?thesis
    proof (cases "wr (attempts st)")
      case WriteOk
      with True show ?thesis by simp
    next
      case HeaderErr
      with True scan_targets_attempts_mono
        [of "st\<lparr>processedTargets := insert (From t) (processedTargets st),
                  attempts := Suc (attempts st)\<rparr>" wr ts h d]
      show ?thesis by simp
    next
      case (CopyErr r w)
      with True scan_targets_attempts_mono
        [of "st\<lparr>processedTargets := insert (From t) (processedTargets st),
                  tw := tw st @ [(h, take (min w r) d)],
                  attempts := Suc (attempts st)\<rparr>" wr ts h "drop r d"]
      show ?thesis by simp
    qed
  qed
qed

lemma walk_entries_first_match:
  assumes ok: "\<not> (Typeflag h = TypeDir \<or> Size h = 0 \<or> Clean (Name h) \<in> processedTargets st)"
    and m: "Clean (Name h) = TrimPrefix (From t) ''/''"
    and w: "walk_entries wr (t # ts) (Entry h d # rest) st = (r, st')"
  shows "From t \<in> processedTargets st'"
proof -
  let ?sc = "scan_targets wr (t # ts) (h\<lparr>Name := Clean (Name h)\<rparr>) d st"
  from m have "From t \<in> processedTargets ?sc"
    by (intro scan_targets_head_match) simp
  moreover have "processedTargets ?sc \<subseteq> processedTargets st'"
  proof (cases "foundLen ?sc = length (t # ts)")
    case True
    with walk_entries_scan [OF ok, of wr "t # ts" d rest] w have "st' = ?sc" by simp
    then show ?thesis by simp
  next
    case False
    with walk_entries_scan [OF ok, of wr "t # ts" d rest] w
    have "walk_entries wr (t # ts) rest ?sc = (r, st')" by simp
    then show ?thesis by (rule walk_entries_processed_mono)
  qed
  ultimately show ?thesis by blast
qed


lemma Extract_Some:
  "Extract os_create wr (Layers ls) platform destinationName = (res, Some fin) \<Longrightarrow>
   \<exists>r. walk_layers wr (Files platform) ls (length ls) init_state = (r, fin)
     \<and> (\<forall>locs. res = Inr locs \<longrightarrow>
           locs = filter (\<lambda>f. From f \<in> processedTargets fin) (Files platform))"
  by (cases "walk_layers wr (Files platform) ls (length ls) init_state")
     (auto simp: Extract_def fileLocation_loop_filter split: if_splits option.splits)

subsection \<open>The list of found files\<close>

text \<open>
  C6. For every list of targets and every set of processed paths, the closing loop of
  \<open>Extract\<close> returns exactly the targets whose \<open>From\<close> is in the set, each as often as
  the caller listed it and in the caller's order. It returns a list in every case: a
  target that was never processed is left out and nothing fails.
\<close>

theorem fileLocation_loop_is_ordered_subsequence:
  "fileLocation_loop files processed [] = filter (\<lambda>f. From f \<in> processed) files"
  by (simp add: fileLocation_loop_filter)

subsection \<open>No targets\<close>




subsection \<open>Directories and empty entries\<close>

text \<open>
  C8. An entry whose type is directory, and an entry whose size is zero, is passed over
  without any change of the state, whatever its name is and whatever the targets are; and
  in every run of \<open>Extract\<close> that created the destination, no header in the archive is a
  directory and none has size zero.
\<close>

theorem directories_and_empty_entries_never_written:
  "(Typeflag h = TypeDir \<or> Size h = 0 \<longrightarrow>
      walk_entries wr files (Entry h d # rest) st = walk_entries wr files rest st)
   \<and> (Extract os_create wr img platform destinationName = (res, Some st') \<longrightarrow>
        (\<forall>w\<in>set (tw st'). Typeflag (fst w) \<noteq> TypeDir \<and> Size (fst w) \<noteq> 0))"
proof (intro conjI impI)
  assume "Typeflag h = TypeDir \<or> Size h = 0"
  then show "walk_entries wr files (Entry h d # rest) st = walk_entries wr files rest st"
    by auto
next
  assume ex: "Extract os_create wr img platform destinationName = (res, Some st')"
  then obtain layers r where
    "walk_layers wr (Files platform) layers (length layers) init_state = (r, st')"
    by (cases "walk_layers wr (Files platform) (case img of Layers ls \<Rightarrow> ls) 
                 (length (case img of Layers ls \<Rightarrow> ls)) init_state")
       (auto simp: Extract_def split: image.splits if_splits option.splits)
  moreover have "\<forall>w\<in>set (tw init_state). Typeflag (fst w) \<noteq> TypeDir \<and> Size (fst w) \<noteq> 0"
    by (simp add: init_state_def)
  ultimately show "\<forall>w\<in>set (tw st'). Typeflag (fst w) \<noteq> TypeDir \<and> Size (fst w) \<noteq> 0"
    by (rule walk_layers_tw_inv)
qed

theorem directories_and_empty_entries_never_written_witness:
  "walk_entries (\<lambda>k. WriteOk) [\<lparr>From = ''/usr/bin/foo'', To = ''foo''\<rparr>]
      [Entry \<lparr>Name = ''usr/bin/foo'', Typeflag = TypeDir, Size = 4096\<rparr> []] init_state
     = (None, init_state)
   \<and> Extract (\<lambda>n. True) (\<lambda>k. WriteOk)
       (Layers [Stream [Entry \<lparr>Name = ''usr/bin/foo'', Typeflag = TypeReg, Size = 0\<rparr> [],
                        Entry \<lparr>Name = ''usr/bin/foo'', Typeflag = TypeDir, Size = 4096\<rparr> [],
                        Entry \<lparr>Name = ''usr/bin/foo'', Typeflag = TypeReg, Size = 2\<rparr> ''ab'']])
       \<lparr>Files = [\<lparr>From = ''/usr/bin/foo'', To = ''foo''\<rparr>]\<rparr> ''plugin.tar.gz''
     = (Inr [\<lparr>From = ''/usr/bin/foo'', To = ''foo''\<rparr>],
        Some \<lparr>processedTargets = {''/usr/bin/foo''}, foundLen = 1,
              tw = [(\<lparr>Name = ''usr/bin/foo'', Typeflag = TypeReg, Size = 2\<rparr>, ''ab'')],
              attempts = 1, opened = [0]\<rparr>)"
  using directories_and_empty_entries_never_written
    [of "\<lparr>Name = ''usr/bin/foo'', Typeflag = TypeDir, Size = 4096\<rparr>"
        "\<lambda>k. WriteOk" "[\<lparr>From = ''/usr/bin/foo'', To = ''foo''\<rparr>]" "[]" "[]" init_state
        "\<lambda>n. True"
        "Layers [Stream [Entry \<lparr>Name = ''usr/bin/foo'', Typeflag = TypeReg, Size = 0\<rparr> [],
                        Entry \<lparr>Name = ''usr/bin/foo'', Typeflag = TypeDir, Size = 4096\<rparr> [],
                        Entry \<lparr>Name = ''usr/bin/foo'', Typeflag = TypeReg, Size = 2\<rparr> ''ab'']]"
        "\<lparr>Files = [\<lparr>From = ''/usr/bin/foo'', To = ''foo''\<rparr>]\<rparr>" "''plugin.tar.gz''"
        "Inr [\<lparr>From = ''/usr/bin/foo'', To = ''foo''\<rparr>]"
        "\<lparr>processedTargets = {''/usr/bin/foo''}, foundLen = 1,
              tw = [(\<lparr>Name = ''usr/bin/foo'', Typeflag = TypeReg, Size = 2\<rparr>, ''ab'')],
              attempts = 1, opened = [0]\<rparr>"]
  by (simp add: Extract_def init_state_def Clean_def TrimPrefix_def)



subsection \<open>Early termination\<close>

text \<open>
  C3. The walk stops as soon as \<open>foundLen\<close> equals the number of targets. At the head of
  the loop over the layers it returns at once, with the state unchanged, so no further
  layer is opened. When the count is reached inside layer \<open>i\<close>, the loop over the entries
  ends there and the loop over the layers returns with the state of that moment: layer
  \<open>i\<close> is the last one opened. In particular, with a single target that the first entry
  of the top layer matches and whose write succeeds, only the top layer is opened,
  whatever the layers below are (a layer that cannot be opened or decoded included), and
  \<open>Extract\<close> returns the target without error.
\<close>

theorem walk_stops_when_all_found:
  "(foundLen st = length files \<longrightarrow> walk_layers wr files layers i st = (None, st))
   \<and> (foundLen st \<noteq> length files \<and> layers ! i = Stream s
        \<and> walk_entries wr files s (st\<lparr>opened := opened st @ [i]\<rparr>) = (None, st')
        \<and> foundLen st' = length files \<longrightarrow>
        walk_layers wr files layers (Suc i) st = (None, st') \<and> opened st' = opened st @ [i])
   \<and> (Typeflag h \<noteq> TypeDir \<and> Size h \<noteq> 0 \<and> Clean (Name h) = TrimPrefix (From t) ''/''
        \<and> wr 0 = WriteOk \<and> os_create destinationName \<longrightarrow>
        Extract os_create wr (Layers (lowers @ [Stream (Entry h d # rest)]))
           \<lparr>Files = [t]\<rparr> destinationName
         = (Inr [t],
            Some \<lparr>processedTargets = {From t}, foundLen = 1,
                  tw = [(h\<lparr>Name := Clean (Name h)\<rparr>, d)], attempts = 1,
                  opened = [length lowers]\<rparr>))"
  using walk_layers_all_found [of st files wr layers i]
    walk_layers_found_in_layer [of st files layers i s wr st']
    Extract_found_at_top [of h t wr os_create destinationName lowers d rest]
  by blast

theorem walk_stops_when_all_found_witness:
  "walk_layers (\<lambda>k. WriteOk) [] [Stream [ReadErr]] (Suc 0) init_state = (None, init_state)
   \<and> walk_layers (\<lambda>k. WriteOk) [\<lparr>From = ''/usr/bin/foo'', To = ''foo''\<rparr>]
        [Stream [ReadErr],
         Stream [Entry \<lparr>Name = ''usr/bin/foo'', Typeflag = TypeReg, Size = 3\<rparr> ''abc'', ReadErr]]
        (Suc (Suc 0)) init_state
      = (None, \<lparr>processedTargets = {''/usr/bin/foo''}, foundLen = 1,
                tw = [(\<lparr>Name = ''usr/bin/foo'', Typeflag = TypeReg, Size = 3\<rparr>, ''abc'')],
                attempts = 1, opened = [1]\<rparr>)
   \<and> Extract (\<lambda>n. True) (\<lambda>k. WriteOk)
        (Layers [Stream [ReadErr],
           Stream [Entry \<lparr>Name = ''usr/bin/foo'', Typeflag = TypeReg, Size = 3\<rparr> ''abc'']])
        \<lparr>Files = [\<lparr>From = ''/usr/bin/foo'', To = ''foo''\<rparr>]\<rparr> ''plugin.tar.gz''
      = (Inr [\<lparr>From = ''/usr/bin/foo'', To = ''foo''\<rparr>],
         Some \<lparr>processedTargets = {''/usr/bin/foo''}, foundLen = 1,
               tw = [(\<lparr>Name = ''usr/bin/foo'', Typeflag = TypeReg, Size = 3\<rparr>, ''abc'')],
               attempts = 1, opened = [1]\<rparr>)"
  using walk_stops_when_all_found
    [of init_state "[]" "\<lambda>k. WriteOk" "[Stream [ReadErr]]" "Suc 0"]
    walk_stops_when_all_found
    [of init_state "[\<lparr>From = ''/usr/bin/foo'', To = ''foo''\<rparr>]"
        "\<lambda>k. WriteOk"
        "[Stream [ReadErr],
          Stream [Entry \<lparr>Name = ''usr/bin/foo'', Typeflag = TypeReg, Size = 3\<rparr> ''abc'', ReadErr]]"
        "Suc 0"
        "[Entry \<lparr>Name = ''usr/bin/foo'', Typeflag = TypeReg, Size = 3\<rparr> ''abc'', ReadErr]"
        "\<lparr>processedTargets = {''/usr/bin/foo''}, foundLen = 1,
                tw = [(\<lparr>Name = ''usr/bin/foo'', Typeflag = TypeReg, Size = 3\<rparr>, ''abc'')],
                attempts = 1, opened = [1]\<rparr>"
        "\<lparr>Name = ''usr/bin/foo'', Typeflag = TypeReg, Size = 3\<rparr>"
        "\<lparr>From = ''/usr/bin/foo'', To = ''foo''\<rparr>" "\<lambda>n. True" "''plugin.tar.gz''"
        "[Stream [ReadErr]]" "''abc''" "[]"]
  by (simp add: init_state_def Clean_def TrimPrefix_def)

subsection \<open>Fatal errors\<close>

text \<open>
  C7. \<open>Extract\<close> returns an error exactly when one of four calls fails: \<open>img.Layers()\<close>,
  \<open>os.Create\<close>, \<open>layer.Uncompressed()\<close> on a layer that the walk opens, and
  \<open>tarReader.Next()\<close> on an entry that the walk reads. Each failure ends the run at once:
  the first two before anything is opened or written; the third with the state as it was
  when the layer was opened; the fourth with the state as it was when the read failed; and
  the loop over the layers returns the error of the loop over the entries as it is.
  Conversely, an error returned by \<open>Extract\<close> is one of the four, and for the last two
  the layer opened last is the one that failed; and when \<open>Extract\<close> returns a list, the
  destination was created, every layer that was opened gave a stream, and a stream that
  holds a failing read was left before that read, because the count of found files had
  been reached. A failed write is not among the causes. With an error no list is
  returned: the result is the error alone.
\<close>

theorem Extract_error_cases:
  "Extract os_create wr LayersErr platform destinationName = (Inl ErrRetrievingLayers, None)
   \<and> (\<not> os_create destinationName \<longrightarrow>
        Extract os_create wr (Layers layers) platform destinationName = (Inl ErrCreate, None))
   \<and> (foundLen st \<noteq> length files \<and> layers ! i = UncompressedErr \<longrightarrow>
        walk_layers wr files layers (Suc i) st
          = (Some ErrReadingLayer, st\<lparr>opened := opened st @ [i]\<rparr>))
   \<and> walk_entries wr files (ReadErr # rest) st = (Some ErrReadingTar, st)
   \<and> (foundLen st \<noteq> length files \<and> layers ! i = Stream s
        \<and> walk_entries wr files s (st\<lparr>opened := opened st @ [i]\<rparr>) = (Some e, st') \<longrightarrow>
        walk_layers wr files layers (Suc i) st = (Some e, st'))
   \<and> (fst (Extract os_create wr img platform destinationName) = Inl e \<longrightarrow>
        (e = ErrRetrievingLayers \<and> img = LayersErr)
        \<or> (e = ErrCreate \<and> (\<exists>ls. img = Layers ls) \<and> \<not> os_create destinationName)
        \<or> (\<exists>ls fin. img = Layers ls \<and> os_create destinationName
              \<and> snd (Extract os_create wr img platform destinationName) = Some fin
              \<and> opened fin \<noteq> [] \<and> last (opened fin) < length ls
              \<and> (e = ErrReadingLayer \<and> ls ! last (opened fin) = UncompressedErr
                  \<or> e = ErrReadingTar
                     \<and> (\<exists>s. ls ! last (opened fin) = Stream s \<and> ReadErr \<in> set s))))
   \<and> (Extract os_create wr (Layers ls) platform destinationName = (Inr locs, Some fin) \<longrightarrow>
        os_create destinationName
        \<and> (\<forall>i\<in>set (opened fin). \<exists>s. ls ! i = Stream s
              \<and> (ReadErr \<notin> set s \<or> foundLen fin = length (Files platform))))"
proof (intro conjI impI)
  show "Extract os_create wr LayersErr platform destinationName = (Inl ErrRetrievingLayers, None)"
    by (simp add: Extract_def)
next
  assume "\<not> os_create destinationName"
  then show "Extract os_create wr (Layers layers) platform destinationName = (Inl ErrCreate, None)"
    by (simp add: Extract_def)
next
  assume "foundLen st \<noteq> length files \<and> layers ! i = UncompressedErr"
  then show "walk_layers wr files layers (Suc i) st
          = (Some ErrReadingLayer, st\<lparr>opened := opened st @ [i]\<rparr>)"
    by simp
next
  show "walk_entries wr files (ReadErr # rest) st = (Some ErrReadingTar, st)"
    by simp
next
  assume "foundLen st \<noteq> length files \<and> layers ! i = Stream s
        \<and> walk_entries wr files s (st\<lparr>opened := opened st @ [i]\<rparr>) = (Some e, st')"
  then show "walk_layers wr files layers (Suc i) st = (Some e, st')"
    by simp
next
  assume err: "fst (Extract os_create wr img platform destinationName) = Inl e"
  show "(e = ErrRetrievingLayers \<and> img = LayersErr)
        \<or> (e = ErrCreate \<and> (\<exists>ls. img = Layers ls) \<and> \<not> os_create destinationName)
        \<or> (\<exists>ls fin. img = Layers ls \<and> os_create destinationName
              \<and> snd (Extract os_create wr img platform destinationName) = Some fin
              \<and> opened fin \<noteq> [] \<and> last (opened fin) < length ls
              \<and> (e = ErrReadingLayer \<and> ls ! last (opened fin) = UncompressedErr
                  \<or> e = ErrReadingTar
                     \<and> (\<exists>s. ls ! last (opened fin) = Stream s \<and> ReadErr \<in> set s)))"
  proof (cases img)
    case LayersErr
    with err show ?thesis by (simp add: Extract_def)
  next
    case (Layers ls)
    show ?thesis
    proof (cases "os_create destinationName")
      case False
      with err Layers show ?thesis by (simp add: Extract_def)
    next
      case True
      obtain r fin where w: "walk_layers wr (Files platform) ls (length ls) init_state = (r, fin)"
        by (cases "walk_layers wr (Files platform) ls (length ls) init_state")
      with err Layers True have r: "r = Some e"
        by (cases r) (simp_all add: Extract_def)
      from w r Layers True
      have "snd (Extract os_create wr img platform destinationName) = Some fin"
        by (simp add: Extract_def)
      moreover from w r have "opened fin \<noteq> [] \<and> last (opened fin) < length ls \<and>
         (e = ErrReadingLayer \<and> ls ! last (opened fin) = UncompressedErr
          \<or> e = ErrReadingTar \<and> (\<exists>s. ls ! last (opened fin) = Stream s \<and> ReadErr \<in> set s))"
        by (simp add: walk_layers_error)
      ultimately show ?thesis using Layers True by blast
    qed
  qed
next
  assume ex: "Extract os_create wr (Layers ls) platform destinationName = (Inr locs, Some fin)"
  then show "os_create destinationName" by (simp add: Extract_Inr)
next
  assume ex: "Extract os_create wr (Layers ls) platform destinationName = (Inr locs, Some fin)"
  then have "walk_layers wr (Files platform) ls (length ls) init_state = (None, fin)"
    by (simp add: Extract_Inr)
  moreover have "\<forall>i\<in>set (opened init_state). \<exists>s. ls ! i = Stream s
        \<and> (ReadErr \<notin> set s \<or> foundLen init_state = length (Files platform))"
    by (simp add: init_state_def)
  ultimately show "\<forall>i\<in>set (opened fin). \<exists>s. ls ! i = Stream s
              \<and> (ReadErr \<notin> set s \<or> foundLen fin = length (Files platform))"
    by (rule walk_layers_no_error)
qed


theorem Extract_error_cases_witness:
  "Extract (\<lambda>n. False) (\<lambda>k. WriteOk) LayersErr
      \<lparr>Files = [\<lparr>From = ''/usr/bin/foo'', To = ''foo''\<rparr>]\<rparr> ''plugin.tar.gz''
     = (Inl ErrRetrievingLayers, None)
   \<and> Extract (\<lambda>n. False) (\<lambda>k. WriteOk) (Layers [UncompressedErr])
      \<lparr>Files = [\<lparr>From = ''/usr/bin/foo'', To = ''foo''\<rparr>]\<rparr> ''plugin.tar.gz''
     = (Inl ErrCreate, None)
   \<and> walk_layers (\<lambda>k. WriteOk) [\<lparr>From = ''/usr/bin/foo'', To = ''foo''\<rparr>]
        [UncompressedErr] (Suc 0) init_state
     = (Some ErrReadingLayer, init_state\<lparr>opened := [0]\<rparr>)
   \<and> walk_layers (\<lambda>k. WriteOk) [\<lparr>From = ''/usr/bin/foo'', To = ''foo''\<rparr>]
        [Stream [ReadErr]] (Suc 0) init_state
     = (Some ErrReadingTar, init_state\<lparr>opened := [0]\<rparr>)
   \<and> Extract (\<lambda>n. True) (\<lambda>k. WriteOk) (Layers [Stream [ReadErr]])
      \<lparr>Files = [\<lparr>From = ''/usr/bin/foo'', To = ''foo''\<rparr>]\<rparr> ''plugin.tar.gz''
     = (Inl ErrReadingTar, Some (init_state\<lparr>opened := [0]\<rparr>))
   \<and> Extract (\<lambda>n. True) (\<lambda>k. WriteOk)
        (Layers [UncompressedErr,
           Stream [Entry \<lparr>Name = ''usr/bin/foo'', Typeflag = TypeReg, Size = 3\<rparr> ''abc'']])
        \<lparr>Files = [\<lparr>From = ''/usr/bin/foo'', To = ''foo''\<rparr>]\<rparr> ''plugin.tar.gz''
     = (Inr [\<lparr>From = ''/usr/bin/foo'', To = ''foo''\<rparr>],
        Some \<lparr>processedTargets = {''/usr/bin/foo''}, foundLen = 1,
              tw = [(\<lparr>Name = ''usr/bin/foo'', Typeflag = TypeReg, Size = 3\<rparr>, ''abc'')],
              attempts = 1, opened = [1]\<rparr>)"
  using Extract_error_cases
    [where os_create = "\<lambda>n. False" and wr = "\<lambda>k. WriteOk"
       and platform = "\<lparr>Files = [\<lparr>From = ''/usr/bin/foo'', To = ''foo''\<rparr>]\<rparr>"
       and destinationName = "''plugin.tar.gz''" and layers = "[UncompressedErr]"
       and st = init_state and files = "[\<lparr>From = ''/usr/bin/foo'', To = ''foo''\<rparr>]"
       and i = 0 and rest = "[]" and s = "[]" and e = ErrCreate and st' = init_state
       and img = "Layers [UncompressedErr]" and ls = "[]" and locs = "[]" and fin = init_state]
    Extract_error_cases
    [where os_create = "\<lambda>n. True" and wr = "\<lambda>k. WriteOk"
       and platform = "\<lparr>Files = [\<lparr>From = ''/usr/bin/foo'', To = ''foo''\<rparr>]\<rparr>"
       and destinationName = "''plugin.tar.gz''" and layers = "[Stream [ReadErr]]"
       and st = init_state and files = "[\<lparr>From = ''/usr/bin/foo'', To = ''foo''\<rparr>]"
       and i = 0 and rest = "[]" and s = "[ReadErr]" and e = ErrReadingTar
       and st' = "init_state\<lparr>opened := [0]\<rparr>"
       and img = "Layers [Stream [ReadErr]]"
       and ls = "[UncompressedErr,
           Stream [Entry \<lparr>Name = ''usr/bin/foo'', Typeflag = TypeReg, Size = 3\<rparr> ''abc'']]"
       and locs = "[\<lparr>From = ''/usr/bin/foo'', To = ''foo''\<rparr>]"
       and fin = "\<lparr>processedTargets = {''/usr/bin/foo''}, foundLen = 1,
              tw = [(\<lparr>Name = ''usr/bin/foo'', Typeflag = TypeReg, Size = 3\<rparr>, ''abc'')],
              attempts = 1, opened = [1]\<rparr>"]
  by (simp add: Extract_def init_state_def Clean_def TrimPrefix_def)

subsection \<open>The same path in several layers\<close>

text \<open>
  C1. The run of \<open>Extract\<close> on an image of two layers that both hold the regular file
  \<open>usr/bin/foo\<close>, 12 bytes in the top layer and 5 bytes in the bottom layer, with the
  targets \<open>/usr/bin/foo\<close> and \<open>/usr/bin/baz\<close>, every write succeeding. A matched target
  is put into \<open>processedTargets\<close> as its \<open>From\<close>, with the leading separator, and the
  set is looked up with the cleaned name of the entry, which has none. So the bottom
  layer's \<open>usr/bin/foo\<close> is not found in the set: it is matched, written and counted a
  second time. The archive holds both copies, the deeper one last; and the count reaches
  the number of targets on it, so the walk stops before \<open>usr/bin/baz\<close>, which is
  neither written nor returned.
\<close>

theorem deeper_copy_written_again:
  "Extract (\<lambda>n. True) (\<lambda>k. WriteOk)
     (Layers
        [Stream [Entry \<lparr>Name = ''usr/bin/foo'', Typeflag = TypeReg, Size = 5\<rparr> ''lower'',
                 Entry \<lparr>Name = ''usr/bin/baz'', Typeflag = TypeReg, Size = 3\<rparr> ''baz''],
         Stream [Entry \<lparr>Name = ''usr/bin/foo'', Typeflag = TypeReg, Size = 12\<rparr> ''top-foo-data'']])
     \<lparr>Files = [\<lparr>From = ''/usr/bin/foo'', To = ''foo''\<rparr>,
               \<lparr>From = ''/usr/bin/baz'', To = ''baz''\<rparr>]\<rparr>
     ''plugin.tar.gz''
   = (Inr [\<lparr>From = ''/usr/bin/foo'', To = ''foo''\<rparr>],
      Some \<lparr>processedTargets = {''/usr/bin/foo''}, foundLen = 2,
            tw = [(\<lparr>Name = ''usr/bin/foo'', Typeflag = TypeReg, Size = 12\<rparr>, ''top-foo-data''),
                  (\<lparr>Name = ''usr/bin/foo'', Typeflag = TypeReg, Size = 5\<rparr>, ''lower'')],
            attempts = 2, opened = [1, 0]\<rparr>)"
  by (simp add: Extract_def init_state_def Clean_def TrimPrefix_def numeral_2_eq_2 insert_commute)

text \<open>
  C2. The run of \<open>Extract\<close> on the image of two layers whose top layer holds the
  directory \<open>etc/\<close>, the regular file \<open>usr/bin/foo\<close> of 12 bytes and the regular file
  \<open>usr/bin/bar\<close> of 0 bytes, and whose bottom layer holds \<open>usr/bin/foo\<close> of 5 bytes and
  \<open>usr/bin/bar\<close> of 3 bytes, with the targets \<open>/usr/bin/foo\<close>, \<open>/usr/bin/bar\<close> and
  \<open>/usr/bin/missing\<close>, every write succeeding. The result is the list of the first two
  targets, with no error; the archive holds three entries and not two: the top layer's
  \<open>usr/bin/foo\<close>, then the bottom layer's \<open>usr/bin/foo\<close>, then the bottom layer's
  \<open>usr/bin/bar\<close>; and \<open>foundLen\<close> ends at 3 with two files found.
\<close>

theorem Extract_two_layer_scenario:
  "Extract (\<lambda>n. True) (\<lambda>k. WriteOk)
     (Layers
        [Stream [Entry \<lparr>Name = ''usr/bin/foo'', Typeflag = TypeReg, Size = 5\<rparr> ''lower'',
                 Entry \<lparr>Name = ''usr/bin/bar'', Typeflag = TypeReg, Size = 3\<rparr> ''bar''],
         Stream [Entry \<lparr>Name = ''etc/'', Typeflag = TypeDir, Size = 0\<rparr> [],
                 Entry \<lparr>Name = ''usr/bin/foo'', Typeflag = TypeReg, Size = 12\<rparr> ''top-foo-data'',
                 Entry \<lparr>Name = ''usr/bin/bar'', Typeflag = TypeReg, Size = 0\<rparr> []]])
     \<lparr>Files = [\<lparr>From = ''/usr/bin/foo'', To = ''foo''\<rparr>,
               \<lparr>From = ''/usr/bin/bar'', To = ''bar''\<rparr>,
               \<lparr>From = ''/usr/bin/missing'', To = ''missing''\<rparr>]\<rparr>
     ''plugin.tar.gz''
   = (Inr [\<lparr>From = ''/usr/bin/foo'', To = ''foo''\<rparr>, \<lparr>From = ''/usr/bin/bar'', To = ''bar''\<rparr>],
      Some \<lparr>processedTargets = {''/usr/bin/foo'', ''/usr/bin/bar''}, foundLen = 3,
            tw = [(\<lparr>Name = ''usr/bin/foo'', Typeflag = TypeReg, Size = 12\<rparr>, ''top-foo-data''),
                  (\<lparr>Name = ''usr/bin/foo'', Typeflag = TypeReg, Size = 5\<rparr>, ''lower''),
                  (\<lparr>Name = ''usr/bin/bar'', Typeflag = TypeReg, Size = 3\<rparr>, ''bar'')],
            attempts = 3, opened = [1, 0]\<rparr>)"
  by (simp add: Extract_def init_state_def Clean_def TrimPrefix_def numeral_2_eq_2 insert_commute)

subsection \<open>Path normalisation\<close>

text \<open>
  C9. The comparison of line 138 is between the cleaned name of the entry and the
  target's \<open>From\<close> without one leading separator. \<open>TrimPrefix\<close> removes exactly one
  leading separator, and leaves a path that has none as it is. For an entry that reaches
  the loop over the targets, a write pass is made exactly when its cleaned name equals
  the \<open>From\<close> of some target with one leading separator removed. The name
  \<open>./usr/bin/foo\<close> cleans to \<open>usr/bin/foo\<close>, which is \<open>/usr/bin/foo\<close> without its
  separator: a non-empty regular entry named \<open>./usr/bin/foo\<close>, first in the top layer, is
  matched by the target \<open>/usr/bin/foo\<close> and is written under its cleaned name.
\<close>

theorem match_strips_separator_and_cleans_name:
  "TrimPrefix (CHR ''/'' # p) ''/'' = p
   \<and> (p = [] \<or> hd p \<noteq> CHR ''/'' \<longrightarrow> TrimPrefix p ''/'' = p)
   \<and> (attempts st < attempts (scan_targets wr files (h\<lparr>Name := Clean (Name h)\<rparr>) d st))
       = (\<exists>t\<in>set files. Clean (Name h) = TrimPrefix (From t) ''/'')
   \<and> Clean ''./usr/bin/foo'' = ''usr/bin/foo''
   \<and> TrimPrefix ''/usr/bin/foo'' ''/'' = ''usr/bin/foo''
   \<and> (Name h = ''./usr/bin/foo'' \<and> From t = ''/usr/bin/foo''
        \<and> Typeflag h \<noteq> TypeDir \<and> Size h \<noteq> 0 \<and> wr 0 = WriteOk \<and> os_create destinationName \<longrightarrow>
        Extract os_create wr (Layers (lowers @ [Stream (Entry h d # rest)]))
           \<lparr>Files = [t]\<rparr> destinationName
         = (Inr [t],
            Some \<lparr>processedTargets = {''/usr/bin/foo''}, foundLen = 1,
                  tw = [(h\<lparr>Name := ''usr/bin/foo''\<rparr>, d)], attempts = 1,
                  opened = [length lowers]\<rparr>))"
proof (intro conjI impI)
  show "TrimPrefix (CHR ''/'' # p) ''/'' = p" by (rule TrimPrefix_sep_Cons)
next
  assume "p = [] \<or> hd p \<noteq> CHR ''/''"
  then show "TrimPrefix p ''/'' = p" by (rule TrimPrefix_sep_other)
next
  show "(attempts st < attempts (scan_targets wr files (h\<lparr>Name := Clean (Name h)\<rparr>) d st))
       = (\<exists>t\<in>set files. Clean (Name h) = TrimPrefix (From t) ''/'')"
    using scan_targets_attempted_iff [of st wr files "h\<lparr>Name := Clean (Name h)\<rparr>" d]
    by simp
next
  show c: "Clean ''./usr/bin/foo'' = ''usr/bin/foo''" by (simp add: Clean_def)
  show t: "TrimPrefix ''/usr/bin/foo'' ''/'' = ''usr/bin/foo''" by (simp add: TrimPrefix_def)
  assume a: "Name h = ''./usr/bin/foo'' \<and> From t = ''/usr/bin/foo''
        \<and> Typeflag h \<noteq> TypeDir \<and> Size h \<noteq> 0 \<and> wr 0 = WriteOk \<and> os_create destinationName"
  then have "Clean (Name h) = TrimPrefix (From t) ''/''" using c t by simp
  with a Extract_found_at_top [of h t wr os_create destinationName lowers d rest]
  show "Extract os_create wr (Layers (lowers @ [Stream (Entry h d # rest)]))
           \<lparr>Files = [t]\<rparr> destinationName
         = (Inr [t],
            Some \<lparr>processedTargets = {''/usr/bin/foo''}, foundLen = 1,
                  tw = [(h\<lparr>Name := ''usr/bin/foo''\<rparr>, d)], attempts = 1,
                  opened = [length lowers]\<rparr>)"
    using c by simp
qed

theorem match_strips_separator_and_cleans_name_witness:
  "TrimPrefix ''usr/bin/foo'' ''/'' = ''usr/bin/foo''
   \<and> attempts (scan_targets (\<lambda>k. HeaderErr) [\<lparr>From = ''/usr/bin/foo'', To = ''foo''\<rparr>]
         \<lparr>Name = ''usr/bin/foo'', Typeflag = TypeReg, Size = 3\<rparr> ''abc'' init_state) = 1
   \<and> Extract (\<lambda>n. True) (\<lambda>k. WriteOk)
        (Layers [Stream [Entry \<lparr>Name = ''./usr/bin/foo'', Typeflag = TypeReg, Size = 3\<rparr> ''abc'']])
        \<lparr>Files = [\<lparr>From = ''/usr/bin/foo'', To = ''foo''\<rparr>]\<rparr> ''plugin.tar.gz''
      = (Inr [\<lparr>From = ''/usr/bin/foo'', To = ''foo''\<rparr>],
         Some \<lparr>processedTargets = {''/usr/bin/foo''}, foundLen = 1,
               tw = [(\<lparr>Name = ''usr/bin/foo'', Typeflag = TypeReg, Size = 3\<rparr>, ''abc'')],
               attempts = 1, opened = [0]\<rparr>)"
  using match_strips_separator_and_cleans_name
    [where p = "''usr/bin/foo''" and st = init_state and wr = "\<lambda>k. HeaderErr"
       and files = "[\<lparr>From = ''/usr/bin/foo'', To = ''foo''\<rparr>]"
       and h = "\<lparr>Name = ''./usr/bin/foo'', Typeflag = TypeReg, Size = 3\<rparr>" and d = "''abc''"]
    match_strips_separator_and_cleans_name
    [where p = "''usr/bin/foo''" and st = init_state and wr = "\<lambda>k. WriteOk"
       and files = "[\<lparr>From = ''/usr/bin/foo'', To = ''foo''\<rparr>]"
       and h = "\<lparr>Name = ''./usr/bin/foo'', Typeflag = TypeReg, Size = 3\<rparr>" and d = "''abc''"
       and t = "\<lparr>From = ''/usr/bin/foo'', To = ''foo''\<rparr>" and os_create = "\<lambda>n. True"
       and destinationName = "''plugin.tar.gz''" and lowers = "[]" and rest = "[]"]
  by (simp add: Extract_def init_state_def Clean_def TrimPrefix_def)

subsection \<open>A target whose write failed\<close>

text \<open>
  C5. A target that the loop over the targets reaches and that the entry matches has its
  \<open>From\<close> in \<open>processedTargets\<close> when that loop ends, whatever the writes did: the
  insertion of line 139 comes before the writes. When the write pass for the target
  fails, the loop goes on with the targets after it in a state in which \<open>From\<close> is in
  the set, \<open>foundLen\<close> is what it was, and the archive has received nothing, or the header
  and a prefix of the content. \<open>processedTargets\<close> only grows in the rest of the walk,
  over the entries and over the layers, and the closing loop returns every target whose
  \<open>From\<close> is in the final set. So in a run whose top layer begins with a non-empty
  regular entry matching the first target, that target's \<open>From\<close> is in the final set
  whatever the writes do, the first write pass failing included, and the target is in
  the list whenever \<open>Extract\<close> returns one.
\<close>

theorem failed_write_target_still_reported:
  "(Name h = TrimPrefix (From t) ''/'' \<longrightarrow>
      From t \<in> processedTargets (scan_targets wr (t # ts) h d st))
   \<and> (Name h = TrimPrefix (From t) ''/'' \<and> wr (attempts st) \<noteq> WriteOk \<longrightarrow>
        (\<exists>d1 st1. scan_targets wr (t # ts) h d st = scan_targets wr ts h d1 st1
           \<and> processedTargets st1 = insert (From t) (processedTargets st)
           \<and> foundLen st1 = foundLen st
           \<and> attempts st1 = Suc (attempts st)
           \<and> (tw st1 = tw st \<or> (\<exists>n. tw st1 = tw st @ [(h, take n d)]))))
   \<and> (From t \<in> processedTargets st \<and> walk_entries wr files s st = (r, st') \<longrightarrow>
        From t \<in> processedTargets st')
   \<and> (From t \<in> processedTargets st \<and> walk_layers wr files layers n st = (r, st') \<longrightarrow>
        From t \<in> processedTargets st')
   \<and> (t \<in> set files \<and> From t \<in> processed \<longrightarrow>
        t \<in> set (fileLocation_loop files processed []))
   \<and> (Typeflag h \<noteq> TypeDir \<and> Size h \<noteq> 0 \<and> Clean (Name h) = TrimPrefix (From t) ''/''
        \<and> Extract os_create wr (Layers (lowers @ [Stream (Entry h d # rest)]))
             \<lparr>Files = t # ts\<rparr> destinationName = (res, Some fin) \<longrightarrow>
        From t \<in> processedTargets fin \<and> (\<forall>locs. res = Inr locs \<longrightarrow> t \<in> set locs))"
proof -
  have c1: "Name h = TrimPrefix (From t) ''/'' \<longrightarrow>
      From t \<in> processedTargets (scan_targets wr (t # ts) h d st)"
    using scan_targets_head_match [of h t wr ts d st] by blast
  have c2: "Name h = TrimPrefix (From t) ''/'' \<and> wr (attempts st) \<noteq> WriteOk \<longrightarrow>
        (\<exists>d1 st1. scan_targets wr (t # ts) h d st = scan_targets wr ts h d1 st1
           \<and> processedTargets st1 = insert (From t) (processedTargets st)
           \<and> foundLen st1 = foundLen st
           \<and> attempts st1 = Suc (attempts st)
           \<and> (tw st1 = tw st \<or> (\<exists>n. tw st1 = tw st @ [(h, take n d)])))"
    using scan_targets_failed_head [of h t wr st ts d] by blast
  have c3: "From t \<in> processedTargets st \<and> walk_entries wr files s st = (r, st') \<longrightarrow>
        From t \<in> processedTargets st'"
    using walk_entries_processed_mono [of wr files s st r st'] by blast
  have c4: "From t \<in> processedTargets st \<and> walk_layers wr files layers n st = (r, st') \<longrightarrow>
        From t \<in> processedTargets st'"
    using walk_layers_processed_mono [of wr files layers n st r st'] by blast
  have c5: "t \<in> set files \<and> From t \<in> processed \<longrightarrow>
        t \<in> set (fileLocation_loop files processed [])"
    by (simp add: fileLocation_loop_filter)
  have c6: "Typeflag h \<noteq> TypeDir \<and> Size h \<noteq> 0 \<and> Clean (Name h) = TrimPrefix (From t) ''/''
        \<and> Extract os_create wr (Layers (lowers @ [Stream (Entry h d # rest)]))
             \<lparr>Files = t # ts\<rparr> destinationName = (res, Some fin) \<longrightarrow>
        From t \<in> processedTargets fin \<and> (\<forall>locs. res = Inr locs \<longrightarrow> t \<in> set locs)"
  proof
    assume a: "Typeflag h \<noteq> TypeDir \<and> Size h \<noteq> 0 \<and> Clean (Name h) = TrimPrefix (From t) ''/''
        \<and> Extract os_create wr (Layers (lowers @ [Stream (Entry h d # rest)]))
             \<lparr>Files = t # ts\<rparr> destinationName = (res, Some fin)"
    let ?layers = "lowers @ [Stream (Entry h d # rest)]"
    let ?st0 = "init_state\<lparr>opened := opened init_state @ [length lowers]\<rparr>"
    from a Extract_Some [of os_create wr ?layers "\<lparr>Files = t # ts\<rparr>" destinationName res fin]
    obtain r where w: "walk_layers wr (t # ts) ?layers (Suc (length lowers)) init_state = (r, fin)"
      and locs: "\<forall>locs. res = Inr locs \<longrightarrow>
                   locs = filter (\<lambda>f. From f \<in> processedTargets fin) (t # ts)"
      by auto
    obtain r1 st1 where e: "walk_entries wr (t # ts) (Entry h d # rest) ?st0 = (r1, st1)"
      by (cases "walk_entries wr (t # ts) (Entry h d # rest) ?st0")
    from a have "\<not> (Typeflag h = TypeDir \<or> Size h = 0 \<or> Clean (Name h) \<in> processedTargets ?st0)"
      by (simp add: init_state_def)
    moreover from a have "Clean (Name h) = TrimPrefix (From t) ''/''" by simp
    ultimately have in1: "From t \<in> processedTargets st1"
      using e by (rule walk_entries_first_match)
    have nf: "foundLen init_state \<noteq> length (t # ts)" by (simp add: init_state_def)
    have "processedTargets st1 \<subseteq> processedTargets fin"
    proof (cases r1)
      case None
      with nf w e have "walk_layers wr (t # ts) ?layers (length lowers) st1 = (r, fin)"
        by (simp del: walk_entries.simps)
      then show ?thesis by (rule walk_layers_processed_mono)
    next
      case (Some e1)
      with nf w e have "fin = st1" by (simp del: walk_entries.simps)
      then show ?thesis by simp
    qed
    with in1 have "From t \<in> processedTargets fin" by blast
    with locs show "From t \<in> processedTargets fin \<and> (\<forall>locs. res = Inr locs \<longrightarrow> t \<in> set locs)"
      by auto
  qed
  from c1 c2 c3 c4 c5 c6 show ?thesis by (intro conjI)
qed

theorem failed_write_target_still_reported_witness:
  "scan_targets (\<lambda>k. if k = 0 then CopyErr 2 1 else WriteOk)
       [\<lparr>From = ''/usr/bin/foo'', To = ''foo''\<rparr>, \<lparr>From = ''/usr/bin/bar'', To = ''bar''\<rparr>]
       \<lparr>Name = ''usr/bin/foo'', Typeflag = TypeReg, Size = 3\<rparr> ''abc'' init_state
     = \<lparr>processedTargets = {''/usr/bin/foo''}, foundLen = 0,
         tw = [(\<lparr>Name = ''usr/bin/foo'', Typeflag = TypeReg, Size = 3\<rparr>, ''a'')],
         attempts = 1, opened = []\<rparr>
   \<and> walk_entries (\<lambda>k. if k = 0 then CopyErr 2 1 else WriteOk)
       [\<lparr>From = ''/usr/bin/foo'', To = ''foo''\<rparr>, \<lparr>From = ''/usr/bin/bar'', To = ''bar''\<rparr>]
       [Entry \<lparr>Name = ''usr/bin/bar'', Typeflag = TypeReg, Size = 2\<rparr> ''xy'']
       \<lparr>processedTargets = {''/usr/bin/foo''}, foundLen = 0,
         tw = [(\<lparr>Name = ''usr/bin/foo'', Typeflag = TypeReg, Size = 3\<rparr>, ''a'')],
         attempts = 1, opened = [0]\<rparr>
     = (None, \<lparr>processedTargets = {''/usr/bin/bar'', ''/usr/bin/foo''}, foundLen = 1,
         tw = [(\<lparr>Name = ''usr/bin/foo'', Typeflag = TypeReg, Size = 3\<rparr>, ''a''),
               (\<lparr>Name = ''usr/bin/bar'', Typeflag = TypeReg, Size = 2\<rparr>, ''xy'')],
         attempts = 2, opened = [0]\<rparr>)
   \<and> Extract (\<lambda>n. True) (\<lambda>k. if k = 0 then CopyErr 2 1 else WriteOk)
        (Layers [Stream [Entry \<lparr>Name = ''usr/bin/foo'', Typeflag = TypeReg, Size = 3\<rparr> ''abc'',
                         Entry \<lparr>Name = ''usr/bin/bar'', Typeflag = TypeReg, Size = 2\<rparr> ''xy'']])
        \<lparr>Files = [\<lparr>From = ''/usr/bin/foo'', To = ''foo''\<rparr>,
                  \<lparr>From = ''/usr/bin/bar'', To = ''bar''\<rparr>]\<rparr> ''plugin.tar.gz''
      = (Inr [\<lparr>From = ''/usr/bin/foo'', To = ''foo''\<rparr>, \<lparr>From = ''/usr/bin/bar'', To = ''bar''\<rparr>],
         Some \<lparr>processedTargets = {''/usr/bin/bar'', ''/usr/bin/foo''}, foundLen = 1,
               tw = [(\<lparr>Name = ''usr/bin/foo'', Typeflag = TypeReg, Size = 3\<rparr>, ''a''),
                     (\<lparr>Name = ''usr/bin/bar'', Typeflag = TypeReg, Size = 2\<rparr>, ''xy'')],
               attempts = 2, opened = [0]\<rparr>)"
  using failed_write_target_still_reported
    [where h = "\<lparr>Name = ''usr/bin/foo'', Typeflag = TypeReg, Size = 3\<rparr>"
       and t = "\<lparr>From = ''/usr/bin/foo'', To = ''foo''\<rparr>"
       and ts = "[\<lparr>From = ''/usr/bin/bar'', To = ''bar''\<rparr>]"
       and wr = "\<lambda>k. if k = 0 then CopyErr 2 1 else WriteOk"
       and d = "''abc''" and st = init_state
       and files = "[\<lparr>From = ''/usr/bin/foo'', To = ''foo''\<rparr>,
                     \<lparr>From = ''/usr/bin/bar'', To = ''bar''\<rparr>]"
       and processed = "{''/usr/bin/bar'', ''/usr/bin/foo''}"
       and os_create = "\<lambda>n. True" and destinationName = "''plugin.tar.gz''"
       and lowers = "[]"
       and rest = "[Entry \<lparr>Name = ''usr/bin/bar'', Typeflag = TypeReg, Size = 2\<rparr> ''xy'']"
       and res = "Inr [\<lparr>From = ''/usr/bin/foo'', To = ''foo''\<rparr>,
                        \<lparr>From = ''/usr/bin/bar'', To = ''bar''\<rparr>]"
       and fin = "\<lparr>processedTargets = {''/usr/bin/bar'', ''/usr/bin/foo''}, foundLen = 1,
               tw = [(\<lparr>Name = ''usr/bin/foo'', Typeflag = TypeReg, Size = 3\<rparr>, ''a''),
                     (\<lparr>Name = ''usr/bin/bar'', Typeflag = TypeReg, Size = 2\<rparr>, ''xy'')],
               attempts = 2, opened = [0]\<rparr>"]
    failed_write_target_still_reported
    [where t = "\<lparr>From = ''/usr/bin/foo'', To = ''foo''\<rparr>"
       and wr = "\<lambda>k. if k = 0 then CopyErr 2 1 else WriteOk"
       and st = "\<lparr>processedTargets = {''/usr/bin/foo''}, foundLen = 0,
         tw = [(\<lparr>Name = ''usr/bin/foo'', Typeflag = TypeReg, Size = 3\<rparr>, ''a'')],
         attempts = 1, opened = [0]\<rparr>"
       and files = "[\<lparr>From = ''/usr/bin/foo'', To = ''foo''\<rparr>,
                     \<lparr>From = ''/usr/bin/bar'', To = ''bar''\<rparr>]"
       and s = "[Entry \<lparr>Name = ''usr/bin/bar'', Typeflag = TypeReg, Size = 2\<rparr> ''xy'']"
       and layers = "[]" and n = 0
       and r = None
       and st' = "\<lparr>processedTargets = {''/usr/bin/bar'', ''/usr/bin/foo''}, foundLen = 1,
         tw = [(\<lparr>Name = ''usr/bin/foo'', Typeflag = TypeReg, Size = 3\<rparr>, ''a''),
               (\<lparr>Name = ''usr/bin/bar'', Typeflag = TypeReg, Size = 2\<rparr>, ''xy'')],
         attempts = 2, opened = [0]\<rparr>"
       and h = "\<lparr>Name = ''usr/bin/foo'', Typeflag = TypeReg, Size = 3\<rparr>"
       and ts = "[\<lparr>From = ''/usr/bin/bar'', To = ''bar''\<rparr>]"
       and d = "''abc''" and processed = "{''/usr/bin/foo''}"
       and os_create = "\<lambda>n. True" and destinationName = "''plugin.tar.gz''"
       and lowers = "[]" and rest = "[]" and res = "Inr []" and fin = init_state]
  by (simp add: Extract_def init_state_def Clean_def TrimPrefix_def insert_commute)

subsection \<open>Write failures\<close>




end
